theory Spec2Isabelle
  imports Complex_Main "HOL-Library.AList"
begin

section \<open>The API gateway of api-gateway/src/index.js\<close>

text \<open>
  The gateway keeps its state in module-level variables: the admission counter
  \<open>concurrentRequests\<close>, the object \<open>circuitBreakers\<close> (one record per service name),
  the object \<open>serviceLoads\<close> (one JS \<open>Map\<close> per key) and the health monitor's
  \<open>healthStatus\<close> map. The functions below are the bodies of the JavaScript functions with
  that state passed in and returned. Every call of \<open>Date.now()\<close> is an argument \<open>now\<close>.
  JavaScript numbers that count events or milliseconds are modelled as \<open>int\<close> (exact below
  \<open>2^53\<close>); \<open>null\<close> is \<open>None\<close>.
\<close>

subsection \<open>Configuration (index.js, lines 16-24)\<close>

record config =
  SERV_REST_PORT :: string
  MAX_CONCURRENT_REQUESTS :: int
  ERROR_THRESHOLD :: int
  ERROR_TIMEOUT :: int
  REROUTE_THRESHOLD :: int
  GATEWAY_SECRET :: string

text \<open>The values the constants take when the environment sets none of them.\<close>

definition defaults :: config where
  "defaults = \<lparr>SERV_REST_PORT = ''5000'', MAX_CONCURRENT_REQUESTS = 100,
     ERROR_THRESHOLD = 3, ERROR_TIMEOUT = 17500, REROUTE_THRESHOLD = 2,
     GATEWAY_SECRET = ''test123''\<rparr>"

subsection \<open>Circuit breaker records (lines 91-108)\<close>

text \<open>The field \<open>state\<close> holds one of the strings 'CLOSED', 'OPEN' and 'HALF-OPEN'.\<close>

datatype breaker_state = CLOSED | OPEN | HALF_OPEN

record breaker =
  failures :: int
  lastFailure :: "int option"
  state :: breaker_state
  reroutes :: int
  lastReroute :: "int option"
  consecutiveReroutes :: int

definition initial_breaker :: breaker where
  "initial_breaker = \<lparr>failures = 0, lastFailure = None, state = CLOSED, reroutes = 0,
     lastReroute = None, consecutiveReroutes = 0\<rparr>"

text \<open>
  \<open>now - breaker.lastFailure\<close> converts \<open>null\<close> to the number 0, and
  \<open>breaker.lastReroute && ...\<close> takes \<open>null\<close> and 0 as false.
\<close>

definition toNumber :: "int option \<Rightarrow> int" where
  "toNumber v = (case v of None \<Rightarrow> 0 | Some n \<Rightarrow> n)"

definition truthy :: "int option \<Rightarrow> bool" where
  "truthy v = (case v of None \<Rightarrow> False | Some n \<Rightarrow> n \<noteq> 0)"

subsection \<open>Circuit breaker functions (lines 248-315 and 502-518)\<close>

text \<open>
  Each function starts with \<open>const breaker = circuitBreakers[service]\<close> and then mutates
  that record. The definitions take the record and return it updated; the lookup by service
  name is done by \<open>routeToService\<close> below. Log lines and metric gauges are left out.
\<close>

definition checkCircuitBreaker :: "config \<Rightarrow> int \<Rightarrow> breaker \<Rightarrow> bool \<times> breaker" where
  "checkCircuitBreaker cfg now breaker =
     (if state breaker = OPEN then
        (if now - toNumber (lastFailure breaker) > ERROR_TIMEOUT cfg
         then (True, breaker\<lparr>state := HALF_OPEN, consecutiveReroutes := 0\<rparr>)
         else (False, breaker))
      else (True, breaker))"

definition recordReroute :: "config \<Rightarrow> int \<Rightarrow> breaker \<Rightarrow> bool \<times> breaker" where
  "recordReroute cfg now breaker =
     (let b1 = (if truthy (lastReroute breaker) \<and> now - toNumber (lastReroute breaker) \<le> 5000
                then breaker\<lparr>consecutiveReroutes := consecutiveReroutes breaker + 1\<rparr>
                else breaker\<lparr>consecutiveReroutes := 1\<rparr>);
          b2 = b1\<lparr>reroutes := reroutes b1 + 1, lastReroute := Some now\<rparr>
      in if consecutiveReroutes b2 \<ge> REROUTE_THRESHOLD cfg
         then (False, b2\<lparr>state := OPEN, lastFailure := Some now\<rparr>)
         else (True, b2))"

text \<open>
  \<open>recordFailure\<close> is declared twice (lines 289 and 502); function declarations are
  hoisted, so every call runs the later one. The two differ only in the metric gauge. The
  field \<open>lastFailure\<close> is assigned before the window test reads it.
\<close>

definition recordFailure :: "config \<Rightarrow> int \<Rightarrow> breaker \<Rightarrow> breaker" where
  "recordFailure cfg now breaker =
     (let b1 = breaker\<lparr>failures := failures breaker + 1, lastFailure := Some now\<rparr>
      in if failures b1 \<ge> ERROR_THRESHOLD cfg then
           (if now - toNumber (lastFailure b1) \<le> ERROR_TIMEOUT cfg
            then b1\<lparr>state := OPEN\<rparr>
            else b1\<lparr>failures := 1\<rparr>)
         else b1)"

definition recordSuccess :: "breaker \<Rightarrow> breaker" where
  "recordSuccess breaker =
     (if state breaker = HALF_OPEN
      then breaker\<lparr>state := CLOSED, failures := 0, lastFailure := None,
                   consecutiveReroutes := 0\<rparr>
      else breaker)"

subsection \<open>Health view and load tracking (lines 111-114, 201-241, 374-395)\<close>

text \<open>
  A JavaScript \<open>Map\<close> and an object with string keys are association lists: \<open>map_of\<close>
  reads a key, and \<open>AList.update\<close> is \<open>Map.set\<close> (an existing key keeps its place, a
  new key goes to the end, which is the order \<open>entries()\<close> walks). A load record is the
  body of a backend's \<open>/metrics\<close> answer; of it the gateway reads \<open>requestsPerSecond\<close>
  only, which may be absent.
\<close>

datatype load = Load (requestsPerSecond: "real option")

type_synonym load_map = "(string \<times> load) list"

record gateway =
  concurrentRequests :: int
  finishListeners :: "nat list"
  circuitBreakers :: "(string \<times> breaker) list"
  serviceLoads :: "(string \<times> load_map) list"
  healthStatus :: "(string \<times> bool) list"
  redisConnected :: bool

text \<open>
  The state after the module is loaded. \<open>finishListeners\<close> lists the response objects
  (numbered) that carry the limiter's \<open>'finish'\<close> listener.
\<close>

definition initial_gateway :: gateway where
  "initial_gateway = \<lparr>concurrentRequests = 0, finishListeners = [],
     circuitBreakers = [(''serviceA'', initial_breaker), (''serviceB'', initial_breaker)],
     serviceLoads = [(''serviceA'', []), (''serviceB'', [])],
     healthStatus = [], redisConnected = False\<rparr>"

text \<open>\<open>updateServiceHealth\<close> with the outcome of the ping passed in.\<close>

definition updateServiceHealth :: "string \<Rightarrow> string \<Rightarrow> bool \<Rightarrow> gateway \<Rightarrow> gateway" where
  "updateServiceHealth serviceType instance isHealthy g =
     g\<lparr>healthStatus := AList.update (serviceType @ ''-'' @ instance) isHealthy (healthStatus g)\<rparr>"

definition isHealthy :: "gateway \<Rightarrow> string \<Rightarrow> string \<Rightarrow> bool" where
  "isHealthy g serviceType instance =
     (case map_of (healthStatus g) (serviceType @ ''-'' @ instance) of
        None \<Rightarrow> False | Some h \<Rightarrow> h)"

text \<open>
  \<open>updateServiceLoad\<close> with the outcome of \<open>GET /metrics\<close> passed in: \<open>None\<close> when
  the call fails. When \<open>serviceLoads[serviceType]\<close> is undefined the call of \<open>.set\<close>
  raises a TypeError inside the \<open>try\<close>, and the function returns null like any failure.
\<close>

definition updateServiceLoad ::
  "string \<Rightarrow> string \<Rightarrow> load option \<Rightarrow> gateway \<Rightarrow> load option \<times> gateway" where
  "updateServiceLoad serviceType instance sample g =
     (case sample of
        None \<Rightarrow> (None, g)
      | Some load \<Rightarrow>
          (case map_of (serviceLoads g) serviceType of
             None \<Rightarrow> (None, g)
           | Some m \<Rightarrow>
               (Some load,
                g\<lparr>serviceLoads :=
                    AList.update serviceType (AList.update instance load m) (serviceLoads g)\<rparr>)))"

subsection \<open>Instance selection (lines 398-439)\<close>

text \<open>
  The comparator of the sort, \<open>loadA - loadB\<close> with
  \<open>load = entry[1]?.requestsPerSecond ?? Infinity\<close>: \<open>sortsAfter a b\<close> says that it
  returns a positive number, so that \<open>a\<close> goes behind \<open>b\<close>. A missing value is
  \<open>Infinity\<close>; \<open>Infinity - Infinity\<close> is NaN, which the sort takes as 0.
\<close>

definition sortsAfter :: "string \<times> load \<Rightarrow> string \<times> load \<Rightarrow> bool" where
  "sortsAfter a b =
     (case (requestsPerSecond (snd a), requestsPerSecond (snd b)) of
        (Some x, Some y) \<Rightarrow> x - y > 0
      | (None, Some y) \<Rightarrow> True
      | (Some x, None) \<Rightarrow> False
      | (None, None) \<Rightarrow> False)"

text \<open>\<open>Array.prototype.sort\<close> is stable: elements the comparator does not order keep
  their relative order.\<close>

fun insert_sorted :: "('a \<Rightarrow> 'a \<Rightarrow> bool) \<Rightarrow> 'a \<Rightarrow> 'a list \<Rightarrow> 'a list" where
  "insert_sorted behind x [] = [x]"
| "insert_sorted behind x (y # ys) =
     (if behind x y then y # insert_sorted behind x ys else x # y # ys)"

definition array_sort :: "('a \<Rightarrow> 'a \<Rightarrow> bool) \<Rightarrow> 'a list \<Rightarrow> 'a list" where
  "array_sort behind xs = foldr (insert_sorted behind) xs []"

text \<open>
  \<open>selectServiceInstance\<close>. \<open>Promise.all\<close> starts one \<open>updateServiceLoad\<close> per healthy
  instance and waits for all of them; each writes its sample when its answer arrives. The
  argument \<open>completed\<close> lists these calls, instance and outcome, in the order in which they
  complete. The result \<open>None\<close> is \<open>null\<close>. The \<open>catch\<close> branch (return
  \<open>instances[0]\<close>) is not reached, since nothing in the \<open>try\<close> block throws.
\<close>

definition selectServiceInstance ::
  "string \<Rightarrow> string list \<Rightarrow> (string \<times> load option) list \<Rightarrow> gateway
     \<Rightarrow> string option \<times> gateway" where
  "selectServiceInstance serviceType instances completed g =
     (case instances of
        [] \<Rightarrow> (None, g)
      | first # _ \<Rightarrow>
          (case filter (isHealthy g serviceType) instances of
             [] \<Rightarrow> (Some first, g)
           | firstHealthy # otherHealthy \<Rightarrow>
               (let healthyInstances = firstHealthy # otherHealthy;
                    g' = fold (\<lambda>(instance, sample) s.
                                 snd (updateServiceLoad serviceType instance sample s))
                           completed g
                in case map_of (serviceLoads g') serviceType of
                     None \<Rightarrow> (Some firstHealthy, g')
                   | Some serviceLoadMap \<Rightarrow>
                       (case array_sort sortsAfter
                               (filter (\<lambda>(instance, load). instance \<in> set healthyInstances)
                                  serviceLoadMap) of
                          [] \<Rightarrow> (Some firstHealthy, g')
                        | (instance, load) # _ \<Rightarrow>
                            (if instance = [] then (Some firstHealthy, g')
                             else (Some instance, g'))))))"

subsection \<open>Routing a request (lines 154-173 and 318-370)\<close>

record request =
  url :: string
  http_method :: string
  body :: string
  headers :: "(string \<times> string) list"

text \<open>The call handed to axios (line 346).\<close>

record outbound =
  out_method :: string
  out_url :: string
  out_data :: string
  out_headers :: "(string \<times> string) list"

text \<open>
  A backend's answer body, with its \<open>detail\<close> property when it has a truthy one. A
  reply of the gateway is a status with either a body passed on by \<open>res.send\<close> or the
  object \<open>{detail: ...}\<close> written by \<open>res.json\<close>.
\<close>

datatype payload = Payload (raw: string) (detail: "string option")

datatype content = Sent payload | Json_detail string

datatype reply = Reply (status: int) (content: content)

text \<open>
  What \<open>await axios(...)\<close> does: it returns a response (status, data), or throws an error
  with \<open>error.code\<close>, \<open>error.response\<close> (status and data, when the backend answered)
  and \<open>error.message\<close>.
\<close>

datatype axios_result =
    Resolved int payload
  | Rejected "string option" "(int \<times> payload) option" string

text \<open>
  What \<open>res.status(status).send(data)\<close> does (line 358; Express is an npm package, not
  part of this repository): it writes a reply, which need not be the status and body it is
  given, or it throws before anything is written, an error with \<open>error.code\<close> and
  \<open>error.message\<close> and no \<open>error.response\<close>.
\<close>

datatype send_result =
    Written reply
  | Threw "string option" string

text \<open>
  What one request reads from outside the process: the clock at the gate and at the record
  of a failure, the answer of the registry (\<open>None\<close> when \<open>lRange\<close> throws), the load
  samples, the outcome of the forwarded call, and what \<open>res.send\<close> does with a status
  and a body.
\<close>

record env =
  gate_now :: int
  lRange :: "string \<Rightarrow> string list option"
  completed_samples :: "(string \<times> load option) list"
  axios_result :: axios_result
  res_send :: "int \<Rightarrow> payload \<Rightarrow> send_result"
  failure_now :: int

definition safeRedisOperation :: "gateway \<Rightarrow> 'a list option \<Rightarrow> 'a list" where
  "safeRedisOperation g operation =
     (if \<not> redisConnected g then []
      else (case operation of None \<Rightarrow> [] | Some result \<Rightarrow> result))"

definition getServiceIPs :: "env \<Rightarrow> gateway \<Rightarrow> string \<Rightarrow> string list" where
  "getServiceIPs e g serviceType = safeRedisOperation g (lRange e (''service:'' @ serviceType))"

text \<open>
  A property read of \<open>undefined\<close> raises a TypeError; \<open>routeToService\<close> meets it when
  \<open>circuitBreakers\<close> has no record under the service name. The function is modelled
  for one request with no other handler running between its \<open>await\<close>s, so the record
  that \<open>recordSuccess\<close> and \<open>recordFailure\<close> find is the one the gate left. The
  field \<open>forwarded\<close> of the result is the call handed to axios, if one was made. The
  call of \<open>res.send\<close> stands inside the \<open>try\<close>, after \<open>recordSuccess\<close>: when it
  throws, the \<open>catch\<close> block runs \<open>recordFailure\<close> as well and writes the reply.
\<close>

datatype error = TypeError

text \<open>
  The reply of the \<open>catch\<close> block (lines 363-368) to an error with the given
  \<open>code\<close>, \<open>response\<close> and \<open>message\<close>.
\<close>

definition errorReply :: "string option \<Rightarrow> (int \<times> payload) option \<Rightarrow> string \<Rightarrow> reply" where
  "errorReply code resp message =
     (if code = Some ''ECONNABORTED''
      then Reply 504 (Json_detail ''Request timed out'')
      else Reply
             (case resp of None \<Rightarrow> 500
              | Some (st, data) \<Rightarrow> if st = 0 then 500 else st)
             (Json_detail
                (case resp of None \<Rightarrow> message
                 | Some (st, data) \<Rightarrow>
                     (case detail data of None \<Rightarrow> message | Some d \<Rightarrow> d))))"

record routed =
  response :: reply
  forwarded :: "outbound option"
  after :: gateway

definition routeToService ::
  "config \<Rightarrow> env \<Rightarrow> string \<Rightarrow> request \<Rightarrow> gateway \<Rightarrow> error + routed" where
  "routeToService cfg e serviceType req g =
     (let serviceName = ''service'' @ serviceType;
          noInstances = Reply 503 (Json_detail (''No available instances for '' @ serviceName))
      in
      case map_of (circuitBreakers g) serviceName of
        None \<Rightarrow> Inl TypeError
      | Some breaker \<Rightarrow>
          (case checkCircuitBreaker cfg (gate_now e) breaker of
             (admitted, b1) \<Rightarrow>
               (let g1 = g\<lparr>circuitBreakers := AList.update serviceName b1 (circuitBreakers g)\<rparr>
                in if \<not> admitted then
                     Inr \<lparr>response = Reply 503 (Json_detail
                            (serviceName @ '' is currently unavailable (Circuit Breaker: OPEN)'')),
                          forwarded = None, after = g1\<rparr>
                   else
                     (let serviceIPs = getServiceIPs e g1 serviceType in
                      if serviceIPs = [] then
                        Inr \<lparr>response = Reply 503 (Json_detail
                               (serviceName @ '' is not available or Redis is disconnected'')),
                             forwarded = None, after = g1\<rparr>
                      else
                        (case selectServiceInstance serviceType serviceIPs
                                (completed_samples e) g1 of
                           (None, g2) \<Rightarrow>
                             Inr \<lparr>response = noInstances, forwarded = None, after = g2\<rparr>
                         | (Some selectedInstance, g2) \<Rightarrow>
                             (if selectedInstance = [] then
                                Inr \<lparr>response = noInstances, forwarded = None, after = g2\<rparr>
                              else
                                (let call = \<lparr>out_method = http_method req,
                                       out_url = ''http://'' @ selectedInstance @ '':''
                                                 @ SERV_REST_PORT cfg @ url req,
                                       out_data = body req,
                                       out_headers = AList.update ''X-Gateway-Token''
                                                       (GATEWAY_SECRET cfg) (headers req)\<rparr>
                                 in case axios_result e of
                                      Resolved st data \<Rightarrow>
                                        (let g3 = g2\<lparr>circuitBreakers :=
                                               AList.update serviceName (recordSuccess b1)
                                                 (circuitBreakers g2)\<rparr>
                                         in case res_send e st data of
                                              Written reply \<Rightarrow>
                                                Inr \<lparr>response = reply,
                                                     forwarded = Some call, after = g3\<rparr>
                                            | Threw code message \<Rightarrow>
                                                Inr \<lparr>response = errorReply code None message,
                                                     forwarded = Some call,
                                                     after = g3\<lparr>circuitBreakers :=
                                                       AList.update serviceName
                                                         (recordFailure cfg (failure_now e)
                                                            (recordSuccess b1))
                                                         (circuitBreakers g3)\<rparr>\<rparr>)
                                    | Rejected code resp message \<Rightarrow>
                                        Inr \<lparr>response = errorReply code resp message,
                                             forwarded = Some call,
                                             after = g2\<lparr>circuitBreakers :=
                                               AList.update serviceName
                                                 (recordFailure cfg (failure_now e) b1)
                                                 (circuitBreakers g2)\<rparr>\<rparr>)))))))"





text \<open>
  \<open>res.send\<close> of Express for a body that is text, an object or an array: the status and
  the body are written as given.
\<close>

definition send_as_given :: "int \<Rightarrow> payload \<Rightarrow> send_result" where
  "send_as_given st data = Written (Reply st (Sent data))"

subsection \<open>Admission (lines 443-452 and 601-602)\<close>

text \<open>
  \<open>taskLimiter\<close> runs on a request whose response object is \<open>res\<close>. It either answers
  503 itself (the result \<open>Some reply\<close>; \<open>next\<close> is not called) or counts the request,
  registers a listener for the \<open>'finish'\<close> event of \<open>res\<close> and calls \<open>next\<close> (the
  result \<open>None\<close>). A response emits \<open>'finish'\<close> once, when it has been written out;
  \<open>finish\<close> runs the listeners registered on it, each of which decrements the counter.
\<close>

definition taskLimiter :: "config \<Rightarrow> nat \<Rightarrow> gateway \<Rightarrow> reply option \<times> gateway" where
  "taskLimiter cfg res g =
     (if concurrentRequests g \<ge> MAX_CONCURRENT_REQUESTS cfg
      then (Some (Reply 503 (Json_detail ''API Gateway is busy. Please try again later.'')), g)
      else (None, g\<lparr>concurrentRequests := concurrentRequests g + 1,
                     finishListeners := res # finishListeners g\<rparr>))"

definition finish :: "nat \<Rightarrow> gateway \<Rightarrow> gateway" where
  "finish res g =
     g\<lparr>concurrentRequests :=
         concurrentRequests g - int (length (filter (\<lambda>r. r = res) (finishListeners g))),
       finishListeners := filter (\<lambda>r. r \<noteq> res) (finishListeners g)\<rparr>"

text \<open>
  The gateway runs one handler section at a time. Its life is a sequence of events: a
  request arrives at the limiter; an admitted request is routed; a response that has been
  written out emits \<open>'finish'\<close>; the connection of a response is closed before the
  response is written, after which the response emits \<open>'close'\<close> and never
  \<open>'finish'\<close> (the limiter has no listener for \<open>'close'\<close>, so nothing runs); the
  Redis client emits \<open>'connect'\<close> or \<open>'error'\<close> (lines 132-140); the health monitor
  stores the outcome of one ping (lines 219-225).
\<close>

datatype event =
    Arrive nat
  | Route env string request
  | Finish nat
  | Close nat
  | RedisConnect
  | RedisError
  | HealthCheck string string bool

fun step :: "config \<Rightarrow> event \<Rightarrow> gateway \<Rightarrow> gateway" where
  "step cfg (Arrive res) g = snd (taskLimiter cfg res g)"
| "step cfg (Route e serviceType req) g =
     (case routeToService cfg e serviceType req g of Inl err \<Rightarrow> g | Inr r \<Rightarrow> after r)"
| "step cfg (Finish res) g = finish res g"
| "step cfg (Close res) g = g"
| "step cfg RedisConnect g = g\<lparr>redisConnected := True\<rparr>"
| "step cfg RedisError g = g\<lparr>redisConnected := False\<rparr>"
| "step cfg (HealthCheck serviceType instance healthy) g =
     updateServiceHealth serviceType instance healthy g"

definition run :: "config \<Rightarrow> event list \<Rightarrow> gateway \<Rightarrow> gateway" where
  "run cfg events g = fold (step cfg) events g"

subsection \<open>Example states\<close>

text \<open>
  The registry is connected and the health monitor has found the two instances of service
  type B healthy.
\<close>

definition two_healthy_B :: gateway where
  "two_healthy_B =
     updateServiceHealth ''B'' ''10.0.0.2'' True
       (updateServiceHealth ''B'' ''10.0.0.1'' True (initial_gateway\<lparr>redisConnected := True\<rparr>))"

text \<open>
  A GET request for /users; a registry that lists two instances under service:B; a backend
  that answers 404 with a detail, which axios throws as an error; a breaker of service B that three failures opened at time
  1000; and a request that arrives at time 20000, after \<open>ERROR_TIMEOUT\<close> has passed,
  and is answered 200 by the backend.
\<close>

definition plain_request :: request where
  "plain_request = \<lparr>url = ''/users'', http_method = ''GET'', body = [], headers = []\<rparr>"

definition registry_B :: "string \<Rightarrow> string list option" where
  "registry_B key = (if key = ''service:B'' then Some [''10.0.0.1'', ''10.0.0.2''] else Some [])"

definition answer_404 :: env where
  "answer_404 = \<lparr>gate_now = 1000, lRange = registry_B,
     completed_samples = [(''10.0.0.1'', Some (Load (Some 30))), (''10.0.0.2'', Some (Load (Some 5)))],
     axios_result = Rejected (Some ''ERR_BAD_REQUEST'')
                      (Some (404, Payload ''no such user'' (Some ''Not found'')))
                      ''Request failed with status code 404'',
     res_send = send_as_given,
     failure_now = 1010\<rparr>"

definition open_breaker :: breaker where
  "open_breaker = \<lparr>failures = 3, lastFailure = Some 1000, state = OPEN, reroutes = 0,
     lastReroute = None, consecutiveReroutes = 0\<rparr>"

definition open_B :: gateway where
  "open_B = two_healthy_B\<lparr>circuitBreakers :=
     [(''serviceA'', initial_breaker), (''serviceB'', open_breaker)]\<rparr>"

definition probe_200 :: env where
  "probe_200 = \<lparr>gate_now = 20000, lRange = registry_B,
     completed_samples = [(''10.0.0.1'', Some (Load (Some 30))), (''10.0.0.2'', Some (Load (Some 5)))],
     axios_result = Resolved 200 (Payload ''ok'' None),
     res_send = send_as_given,
     failure_now = 20010\<rparr>"

text \<open>
  A backend that answers 200 with the body 404, a bare JSON number: axios parses it to the
  number 404, which \<open>res.send\<close> of Express 4 takes as the status to answer with, the
  body being that status's standard text.
\<close>

definition number_body :: env where
  "number_body = \<lparr>gate_now = 1000, lRange = registry_B,
     completed_samples = [(''10.0.0.1'', Some (Load (Some 30))), (''10.0.0.2'', Some (Load (Some 5)))],
     axios_result = Resolved 200 (Payload ''404'' None),
     res_send = (\<lambda>st data. Written (Reply 404 (Sent (Payload ''Not Found'' None)))),
     failure_now = 1010\<rparr>"

text \<open>
  A backend that answers 200 with the body 5: \<open>res.send\<close> of Express 4 sets the status
  5, which Node refuses with a RangeError before anything is written.
\<close>

definition invalid_number_body :: env where
  "invalid_number_body = \<lparr>gate_now = 1000, lRange = registry_B,
     completed_samples = [(''10.0.0.1'', Some (Load (Some 30))), (''10.0.0.2'', Some (Load (Some 5)))],
     axios_result = Resolved 200 (Payload ''5'' None),
     res_send = (\<lambda>st data. Threw (Some ''ERR_HTTP_INVALID_STATUS_CODE'') ''Invalid status code: 5''),
     failure_now = 1010\<rparr>"

subsection \<open>The invariant of the admission counter\<close>

text \<open>
  The counter equals the number of responses that still carry the limiter's listener, and
  does not exceed the cap.
\<close>

definition admission_invariant :: "config \<Rightarrow> gateway \<Rightarrow> bool" where
  "admission_invariant cfg g \<longleftrightarrow>
     concurrentRequests g = int (length (finishListeners g))
     \<and> concurrentRequests g \<le> MAX_CONCURRENT_REQUESTS cfg"

section \<open>Properties of the circuit breaker\<close>

text \<open>
  C6. For a breaker in the HALF-OPEN state, recording a success closes it and sets
  \<open>failures\<close> to 0, \<open>lastFailure\<close> to null and \<open>consecutiveReroutes\<close> to 0; the
  reroute counter and the time of the last reroute are kept.
\<close>

theorem recordSuccess_half_open:
  assumes "state b = HALF_OPEN"
  shows "recordSuccess b = \<lparr>failures = 0, lastFailure = None, state = CLOSED,
           reroutes = reroutes b, lastReroute = lastReroute b, consecutiveReroutes = 0\<rparr>"
  using assms by (simp add: recordSuccess_def)

theorem recordSuccess_half_open_witness:
  "state (initial_breaker\<lparr>failures := 3, lastFailure := Some 1000, state := HALF_OPEN\<rparr>) = HALF_OPEN
   \<and> recordSuccess (initial_breaker\<lparr>failures := 3, lastFailure := Some 1000, state := HALF_OPEN\<rparr>)
       = initial_breaker"
  using recordSuccess_half_open
    [of "initial_breaker\<lparr>failures := 3, lastFailure := Some 1000, state := HALF_OPEN\<rparr>"]
  by (simp add: initial_breaker_def)


text \<open>
  C10. While the breaker is CLOSED or HALF-OPEN the gate \<open>checkCircuitBreaker\<close> returns
  true and leaves the whole record as it was, whatever the time; so any sequence of
  dispatch attempts made while it is HALF-OPEN is admitted, each one seeing the unchanged
  record (there is no limit of one probe).
\<close>

theorem checkCircuitBreaker_not_open:
  assumes "state b = CLOSED \<or> state b = HALF_OPEN"
  shows "checkCircuitBreaker cfg now b = (True, b)
         \<and> fold (\<lambda>t x. snd (checkCircuitBreaker cfg t x)) ts b = b
         \<and> map (\<lambda>t. fst (checkCircuitBreaker cfg t b)) ts = replicate (length ts) True"
proof -
  have gate: "checkCircuitBreaker cfg t b = (True, b)" for t
    using assms by (auto simp: checkCircuitBreaker_def)
  have "fold (\<lambda>t x. snd (checkCircuitBreaker cfg t x)) ts b = b"
    by (induction ts) (simp_all add: gate)
  moreover have "map (\<lambda>t. fst (checkCircuitBreaker cfg t b)) ts = replicate (length ts) True"
    by (induction ts) (simp_all add: gate)
  ultimately show ?thesis using gate by simp
qed

theorem checkCircuitBreaker_not_open_witness:
  "(state (initial_breaker\<lparr>state := HALF_OPEN\<rparr>) = CLOSED
      \<or> state (initial_breaker\<lparr>state := HALF_OPEN\<rparr>) = HALF_OPEN)
   \<and> checkCircuitBreaker defaults 5 (initial_breaker\<lparr>state := HALF_OPEN\<rparr>)
       = (True, initial_breaker\<lparr>state := HALF_OPEN\<rparr>)
   \<and> map (\<lambda>t. fst (checkCircuitBreaker defaults t (initial_breaker\<lparr>state := HALF_OPEN\<rparr>)))
         [5, 6, 7] = [True, True, True]"
  using checkCircuitBreaker_not_open
    [of "initial_breaker\<lparr>state := HALF_OPEN\<rparr>" defaults 5 "[5, 6, 7]"]
  by (simp add: initial_breaker_def)


text \<open>
  C2 (the code departs from the claim). A CLOSED breaker with two failures, the last one at
  time 1000, records a third failure at time 100000, far more than \<open>ERROR_TIMEOUT\<close> = 17500
  ms later. The claim keeps the breaker CLOSED with the count reset to 1; the code opens it
  with a count of 3.
\<close>

theorem recordFailure_window_not_checked:
  "recordFailure defaults 100000
     \<lparr>failures = 2, lastFailure = Some 1000, state = CLOSED, reroutes = 0,
      lastReroute = None, consecutiveReroutes = 0\<rparr>
   = \<lparr>failures = 3, lastFailure = Some 100000, state = OPEN, reroutes = 0,
      lastReroute = None, consecutiveReroutes = 0\<rparr>"
  by (simp add: recordFailure_def defaults_def toNumber_def)

text \<open>
  C4 as claimed fails: after one reroute at time 1000 the breaker is CLOSED with
  \<open>consecutiveReroutes\<close> = 1; recording a success leaves the 1 in place, and a reroute
  recorded 6000 ms later (outside the window of 5000 ms) sets the count to 1, not to 0.
\<close>

theorem consecutiveReroutes_not_reset_counterexample:
  "state (snd (recordReroute defaults 1000 initial_breaker)) = CLOSED
   \<and> consecutiveReroutes (snd (recordReroute defaults 1000 initial_breaker)) = 1
   \<and> consecutiveReroutes (recordSuccess (snd (recordReroute defaults 1000 initial_breaker))) \<noteq> 0
   \<and> consecutiveReroutes
        (snd (recordReroute defaults 7000 (snd (recordReroute defaults 1000 initial_breaker)))) \<noteq> 0"
  by (simp add: recordReroute_def recordSuccess_def defaults_def initial_breaker_def
      truthy_def toNumber_def)

text \<open>
  C4 as amended. The four functions that touch a breaker change \<open>consecutiveReroutes\<close> as
  follows, and in no other way. It is set to 0 in two situations: by \<open>recordSuccess\<close> when
  the breaker is HALF-OPEN (in the CLOSED and OPEN states a success changes nothing), and by
  the gate when it moves the breaker from OPEN to HALF-OPEN, which is the only way into
  HALF-OPEN. \<open>recordFailure\<close> never changes it. \<open>recordReroute\<close> adds one when the
  previous reroute is at most 5000 ms old, and otherwise (later than that, or no previous
  reroute) restarts the count at 1; so a reroute never leaves a count of 0 behind.
\<close>

theorem consecutiveReroutes_updates:
  "consecutiveReroutes (recordSuccess b)
     = (if state b = HALF_OPEN then 0 else consecutiveReroutes b)
   \<and> consecutiveReroutes (snd (checkCircuitBreaker cfg now b))
     = (if state b = OPEN \<and> now - toNumber (lastFailure b) > ERROR_TIMEOUT cfg then 0
        else consecutiveReroutes b)
   \<and> state (snd (checkCircuitBreaker cfg now b))
     = (if state b = OPEN \<and> now - toNumber (lastFailure b) > ERROR_TIMEOUT cfg then HALF_OPEN
        else state b)
   \<and> state (recordSuccess b) \<noteq> HALF_OPEN
   \<and> state (recordFailure cfg now b) \<in> {state b, OPEN}
   \<and> state (snd (recordReroute cfg now b)) \<in> {state b, OPEN}
   \<and> consecutiveReroutes (recordFailure cfg now b) = consecutiveReroutes b
   \<and> consecutiveReroutes (snd (recordReroute cfg now b))
     = (if truthy (lastReroute b) \<and> now - toNumber (lastReroute b) \<le> 5000
        then consecutiveReroutes b + 1 else 1)
   \<and> (0 \<le> consecutiveReroutes b \<longrightarrow> 1 \<le> consecutiveReroutes (snd (recordReroute cfg now b)))"
  by (auto simp: recordSuccess_def checkCircuitBreaker_def recordFailure_def recordReroute_def
      Let_def)

theorem consecutiveReroutes_updates_witness:
  "0 \<le> consecutiveReroutes initial_breaker
   \<and> 1 \<le> consecutiveReroutes (snd (recordReroute defaults 1000 initial_breaker))
   \<and> consecutiveReroutes (recordSuccess (initial_breaker\<lparr>state := HALF_OPEN,
        consecutiveReroutes := 1\<rparr>)) = 0"
  using consecutiveReroutes_updates
    [of "initial_breaker" defaults 1000]
    consecutiveReroutes_updates
    [of "initial_breaker\<lparr>state := HALF_OPEN, consecutiveReroutes := 1\<rparr>" defaults 1000]
  by (simp add: initial_breaker_def)


section \<open>Properties of the selector\<close>

lemma set_insert_sorted: "set (insert_sorted cmp x xs) = insert x (set xs)"
  by (induction xs) auto

lemma set_array_sort: "set (array_sort cmp xs) = set xs"
  unfolding array_sort_def by (induction xs) (simp_all add: set_insert_sorted)

lemma updateServiceLoad_frame:
  "healthStatus (snd (updateServiceLoad ty i s g)) = healthStatus g
   \<and> circuitBreakers (snd (updateServiceLoad ty i s g)) = circuitBreakers g
   \<and> concurrentRequests (snd (updateServiceLoad ty i s g)) = concurrentRequests g
   \<and> finishListeners (snd (updateServiceLoad ty i s g)) = finishListeners g
   \<and> redisConnected (snd (updateServiceLoad ty i s g)) = redisConnected g"
  by (simp add: updateServiceLoad_def split: option.splits)

lemma updateServiceLoad_no_map:
  "map_of (serviceLoads g) ty = None \<Longrightarrow> snd (updateServiceLoad ty i s g) = g"
  by (simp add: updateServiceLoad_def split: option.splits)

lemma samples_no_map:
  "map_of (serviceLoads g) ty = None \<Longrightarrow>
   fold (\<lambda>(instance, sample) s. snd (updateServiceLoad ty instance sample s)) completed g = g"
  by (induction completed) (auto simp: updateServiceLoad_no_map)

text \<open>
  When \<open>serviceLoads\<close> has no entry under the service type, no sample is stored and the
  selector answers with the first healthy instance of the list (the first instance when
  none is healthy), whatever the loads are.
\<close>

lemma selectServiceInstance_no_map:
  assumes "map_of (serviceLoads g) ty = None"
  shows "selectServiceInstance ty instances completed g =
     (case instances of [] \<Rightarrow> None
      | first # _ \<Rightarrow> (case filter (isHealthy g ty) instances of [] \<Rightarrow> Some first
                        | h # _ \<Rightarrow> Some h), g)"
  using assms
  by (simp add: selectServiceInstance_def samples_no_map split: list.splits)

lemma selectServiceInstance_result:
  "(fst (selectServiceInstance ty instances completed g) = None \<longleftrightarrow> instances = [])
   \<and> (\<forall>i. fst (selectServiceInstance ty instances completed g) = Some i \<longrightarrow> i \<in> set instances)"
proof (cases instances)
  case Nil
  then show ?thesis by (simp add: selectServiceInstance_def)
next
  case (Cons first rest)
  show ?thesis
  proof (cases "filter (isHealthy g ty) instances")
    case Nil
    with Cons show ?thesis by (simp add: selectServiceInstance_def)
  next
    case healthy: (Cons h hs)
    have sub: "set (h # hs) \<subseteq> set instances"
      using filter_is_subset [of "isHealthy g ty" instances] healthy by simp
    have h_in: "h \<in> set instances"
      using sub by simp
    define g' where "g' = fold (\<lambda>(instance, sample) s.
         snd (updateServiceLoad ty instance sample s)) completed g"
    show ?thesis
    proof (cases "map_of (serviceLoads g') ty")
      case None
      with Cons healthy h_in show ?thesis
        unfolding selectServiceInstance_def g'_def[symmetric] by (simp add: Let_def)
    next
      case (Some m)
      define sorted where "sorted = array_sort sortsAfter
         (filter (\<lambda>(instance, load). instance \<in> set (h # hs)) m)"
      show ?thesis
      proof (cases sorted)
        case Nil
        with Cons healthy h_in Some show ?thesis
          unfolding selectServiceInstance_def g'_def[symmetric]
          by (simp add: Let_def sorted_def[symmetric] del: set_simps)
      next
        case sorted_Cons: (Cons p ps)
        obtain i l where p: "p = (i, l)" by (cases p)
        have "(i, l) \<in> set sorted" using sorted_Cons p by simp
        then have "i \<in> set (h # hs)"
          unfolding sorted_def set_array_sort by auto
        then have "i \<in> set instances" using sub by blast
        with Cons healthy h_in Some sorted_Cons p show ?thesis
          unfolding selectServiceInstance_def g'_def[symmetric]
          by (simp add: Let_def sorted_def[symmetric] del: set_simps)
      qed
    qed
  qed
qed

text \<open>
  C8. The selector returns null exactly when the instance list it is given is empty; an
  instance it returns is a member of that list; and when no instance of a non-empty list is
  healthy it returns the first element of the list and changes nothing. This holds for
  every state of the gateway and every order and outcome of the load samples.
\<close>

theorem selectServiceInstance_member:
  "(fst (selectServiceInstance ty instances completed g) = None \<longleftrightarrow> instances = [])
   \<and> (\<forall>i. fst (selectServiceInstance ty instances completed g) = Some i \<longrightarrow> i \<in> set instances)
   \<and> (\<forall>first rest. instances = first # rest \<longrightarrow> filter (isHealthy g ty) instances = []
         \<longrightarrow> selectServiceInstance ty instances completed g = (Some first, g))"
  using selectServiceInstance_result [of ty instances completed g]
  by (simp add: selectServiceInstance_def)

theorem selectServiceInstance_member_witness:
  "filter (isHealthy initial_gateway ''A'') [''10.0.0.1'', ''10.0.0.2''] = []
   \<and> selectServiceInstance ''A'' [''10.0.0.1'', ''10.0.0.2''] [] initial_gateway
       = (Some ''10.0.0.1'', initial_gateway)
   \<and> fst (selectServiceInstance ''B'' [''10.0.0.1'', ''10.0.0.2''] [] two_healthy_B)
       \<in> Some ` set [''10.0.0.1'', ''10.0.0.2'']"
proof -
  have unhealthy: "filter (isHealthy initial_gateway ''A'') [''10.0.0.1'', ''10.0.0.2''] = []"
    by (simp add: isHealthy_def initial_gateway_def)
  have fallback: "selectServiceInstance ''A'' [''10.0.0.1'', ''10.0.0.2''] [] initial_gateway
       = (Some ''10.0.0.1'', initial_gateway)"
    using selectServiceInstance_member
      [of "''A''" "[''10.0.0.1'', ''10.0.0.2'']" "[]" initial_gateway] unhealthy
    by blast
  have "fst (selectServiceInstance ''B'' [''10.0.0.1'', ''10.0.0.2''] [] two_healthy_B) \<noteq> None"
    using selectServiceInstance_member
      [of "''B''" "[''10.0.0.1'', ''10.0.0.2'']" "[]" two_healthy_B]
    by simp
  then obtain i where i: "fst (selectServiceInstance ''B'' [''10.0.0.1'', ''10.0.0.2''] []
      two_healthy_B) = Some i"
    by blast
  then have "i \<in> set [''10.0.0.1'', ''10.0.0.2'']"
    using selectServiceInstance_member
      [of "''B''" "[''10.0.0.1'', ''10.0.0.2'']" "[]" two_healthy_B]
    by blast
  with i unhealthy fallback show ?thesis by simp
qed

text \<open>
  The sort itself orders by load: had the samples been stored and read under a key that
  \<open>serviceLoads\<close> has, here 'serviceB', the instance with 5 requests per second would
  have been selected.
\<close>

lemma selectServiceInstance_sorts_when_keyed:
  "fst (selectServiceInstance ''serviceB'' [''10.0.0.1'', ''10.0.0.2'']
     [(''10.0.0.1'', Some (Load (Some 30))), (''10.0.0.2'', Some (Load (Some 5)))]
     (updateServiceHealth ''serviceB'' ''10.0.0.2'' True
       (updateServiceHealth ''serviceB'' ''10.0.0.1'' True initial_gateway)))
   = Some ''10.0.0.2''"
  by (simp add: selectServiceInstance_def isHealthy_def updateServiceHealth_def
      initial_gateway_def updateServiceLoad_def array_sort_def sortsAfter_def Let_def)

text \<open>
  C7 (the code departs from the claim). The routes call \<open>routeToService\<close> with the
  service types 'A' and 'B', while \<open>serviceLoads\<close> is keyed by 'serviceA' and 'serviceB'.
  For a request to /sB with two healthy instances whose \<open>/metrics\<close> report 30 and 5
  requests per second, the selector returns the instance with 30, the first healthy one of
  the list, and stores no sample; the claim selects the instance with 5.
\<close>

theorem selectServiceInstance_load_not_used:
  "selectServiceInstance ''B'' [''10.0.0.1'', ''10.0.0.2'']
     [(''10.0.0.1'', Some (Load (Some 30))), (''10.0.0.2'', Some (Load (Some 5)))]
     two_healthy_B
   = (Some ''10.0.0.1'', two_healthy_B)"
proof -
  have "map_of (serviceLoads two_healthy_B) ''B'' = None"
    by (simp add: two_healthy_B_def updateServiceHealth_def initial_gateway_def)
  then show ?thesis
    by (simp add: selectServiceInstance_no_map isHealthy_def two_healthy_B_def
        updateServiceHealth_def initial_gateway_def)
qed


section \<open>Properties of routing and admission\<close>

lemma samples_frame:
  "healthStatus (fold (\<lambda>(instance, sample) s. snd (updateServiceLoad ty instance sample s)) completed g) = healthStatus g
   \<and> circuitBreakers (fold (\<lambda>(instance, sample) s. snd (updateServiceLoad ty instance sample s)) completed g) = circuitBreakers g
   \<and> concurrentRequests (fold (\<lambda>(instance, sample) s. snd (updateServiceLoad ty instance sample s)) completed g) = concurrentRequests g
   \<and> finishListeners (fold (\<lambda>(instance, sample) s. snd (updateServiceLoad ty instance sample s)) completed g) = finishListeners g
   \<and> redisConnected (fold (\<lambda>(instance, sample) s. snd (updateServiceLoad ty instance sample s)) completed g) = redisConnected g"
proof (induction completed arbitrary: g)
  case Nil
  show ?case by simp
next
  case (Cons c cs)
  obtain i s where c: "c = (i, s)" by (cases c)
  show ?case
    using Cons [of "snd (updateServiceLoad ty i s g)"] updateServiceLoad_frame [of ty i s g]
    by (simp add: c)
qed

lemma selectServiceInstance_frame:
  "circuitBreakers (snd (selectServiceInstance ty instances completed g)) = circuitBreakers g
   \<and> concurrentRequests (snd (selectServiceInstance ty instances completed g)) = concurrentRequests g
   \<and> finishListeners (snd (selectServiceInstance ty instances completed g)) = finishListeners g
   \<and> healthStatus (snd (selectServiceInstance ty instances completed g)) = healthStatus g
   \<and> redisConnected (snd (selectServiceInstance ty instances completed g)) = redisConnected g"
  using samples_frame [of ty completed g]
  by (simp add: selectServiceInstance_def Let_def split: list.splits option.splits prod.splits)

lemma routeToService_frame:
  assumes "routeToService cfg e ty req g = Inr r"
  shows "concurrentRequests (after r) = concurrentRequests g
       \<and> finishListeners (after r) = finishListeners g
       \<and> healthStatus (after r) = healthStatus g
       \<and> redisConnected (after r) = redisConnected g"
  using assms
  by (auto simp: routeToService_def Let_def split_beta selectServiceInstance_frame
      split: option.splits if_splits axios_result.splits send_result.splits)


lemmas fixtures = plain_request_def registry_B_def answer_404_def open_breaker_def open_B_def
  probe_200_def number_body_def invalid_number_body_def send_as_given_def two_healthy_B_def
  updateServiceHealth_def initial_gateway_def initial_breaker_def defaults_def

lemma map_of_update_same: "map_of (AList.update k v al) k = Some v"
  by (simp add: update_conv')


lemma getServiceIPs_breakers [simp]:
  "getServiceIPs e (g\<lparr>circuitBreakers := cb\<rparr>) ty = getServiceIPs e g ty"
  by (simp add: getServiceIPs_def safeRedisOperation_def)

lemma routeToService_admitted:
  assumes breaker: "map_of (circuitBreakers g) (''service'' @ ty) = Some b"
    and gate: "checkCircuitBreaker cfg (gate_now e) b = (True, b1)"
    and sel: "selectServiceInstance ty (getServiceIPs e g ty) (completed_samples e)
                (g\<lparr>circuitBreakers := AList.update (''service'' @ ty) b1 (circuitBreakers g)\<rparr>)
              = (sel, g2)"
  shows "routeToService cfg e ty req g =
     (if getServiceIPs e g ty = [] then
        Inr \<lparr>response = Reply 503 (Json_detail
               (''service'' @ ty @ '' is not available or Redis is disconnected'')),
             forwarded = None,
             after = g\<lparr>circuitBreakers := AList.update (''service'' @ ty) b1 (circuitBreakers g)\<rparr>\<rparr>
      else if sel = None \<or> sel = Some [] then
        Inr \<lparr>response = Reply 503 (Json_detail (''No available instances for service'' @ ty)),
             forwarded = None, after = g2\<rparr>
      else
        Inr \<lparr>response =
               (case axios_result e of
                  Resolved st data \<Rightarrow>
                    (case res_send e st data of
                       Written reply \<Rightarrow> reply
                     | Threw code message \<Rightarrow> errorReply code None message)
                | Rejected code resp message \<Rightarrow> errorReply code resp message),
             forwarded = Some \<lparr>out_method = http_method req,
               out_url = ''http://'' @ the sel @ '':'' @ SERV_REST_PORT cfg @ url req,
               out_data = body req,
               out_headers = AList.update ''X-Gateway-Token'' (GATEWAY_SECRET cfg) (headers req)\<rparr>,
             after = g2\<lparr>circuitBreakers := AList.update (''service'' @ ty)
               (case axios_result e of
                  Resolved st data \<Rightarrow>
                    (case res_send e st data of
                       Written reply \<Rightarrow> recordSuccess b1
                     | Threw code message \<Rightarrow>
                         recordFailure cfg (failure_now e) (recordSuccess b1))
                | Rejected code resp message \<Rightarrow> recordFailure cfg (failure_now e) b1)
               (circuitBreakers g2)\<rparr>\<rparr>)"
  using assms
  by (cases sel)
    (simp_all add: routeToService_def Let_def split: axios_result.splits send_result.splits)

lemma routeToService_rejected:
  assumes breaker: "map_of (circuitBreakers g) (''service'' @ ty) = Some b"
    and gate: "checkCircuitBreaker cfg (gate_now e) b = (False, b1)"
  shows "routeToService cfg e ty req g =
     Inr \<lparr>response = Reply 503 (Json_detail
            (''service'' @ ty @ '' is currently unavailable (Circuit Breaker: OPEN)'')),
          forwarded = None, after = g\<rparr>"
proof -
  have "b1 = b"
    using gate by (auto simp: checkCircuitBreaker_def split: if_splits)
  then have "g\<lparr>circuitBreakers := AList.update (''service'' @ ty) b1 (circuitBreakers g)\<rparr> = g"
    using update_triv [OF breaker] by simp
  then show ?thesis
    using breaker gate by (simp add: routeToService_def)
qed

text \<open>Three requests to /sB, computed.\<close>

lemma route_answer_404:
  "routeToService defaults answer_404 ''B'' plain_request two_healthy_B
   = Inr \<lparr>response = Reply 404 (Json_detail ''Not found''),
          forwarded = Some \<lparr>out_method = ''GET'', out_url = ''http://10.0.0.1:5000/users'',
                             out_data = [], out_headers = [(''X-Gateway-Token'', ''test123'')]\<rparr>,
          after = two_healthy_B\<lparr>circuitBreakers :=
                    [(''serviceA'', initial_breaker),
                     (''serviceB'', \<lparr>failures = 1, lastFailure = Some 1010, state = CLOSED,
                        reroutes = 0, lastReroute = None, consecutiveReroutes = 0\<rparr>)]\<rparr>\<rparr>"
  by (simp add: routeToService_def checkCircuitBreaker_def getServiceIPs_def
      safeRedisOperation_def selectServiceInstance_no_map isHealthy_def recordFailure_def
      toNumber_def errorReply_def fixtures Let_def)

lemma route_probe_200:
  "routeToService defaults probe_200 ''B'' plain_request open_B
   = Inr \<lparr>response = Reply 200 (Sent (Payload ''ok'' None)),
          forwarded = Some \<lparr>out_method = ''GET'', out_url = ''http://10.0.0.1:5000/users'',
                             out_data = [], out_headers = [(''X-Gateway-Token'', ''test123'')]\<rparr>,
          after = open_B\<lparr>circuitBreakers :=
                    [(''serviceA'', initial_breaker),
                     (''serviceB'', \<lparr>failures = 0, lastFailure = None, state = CLOSED,
                        reroutes = 0, lastReroute = None, consecutiveReroutes = 0\<rparr>)]\<rparr>\<rparr>"
  by (simp add: routeToService_def checkCircuitBreaker_def getServiceIPs_def
      safeRedisOperation_def selectServiceInstance_no_map isHealthy_def recordSuccess_def
      toNumber_def fixtures Let_def)

lemma route_probe_disconnected:
  "routeToService defaults probe_200 ''B'' plain_request (open_B\<lparr>redisConnected := False\<rparr>)
   = Inr \<lparr>response = Reply 503 (Json_detail
                       ''serviceB is not available or Redis is disconnected''),
          forwarded = None,
          after = open_B\<lparr>redisConnected := False, circuitBreakers :=
                    [(''serviceA'', initial_breaker),
                     (''serviceB'', \<lparr>failures = 3, lastFailure = Some 1000, state = HALF_OPEN,
                        reroutes = 0, lastReroute = None, consecutiveReroutes = 0\<rparr>)]\<rparr>\<rparr>"
  by (simp add: routeToService_def checkCircuitBreaker_def getServiceIPs_def
      safeRedisOperation_def toNumber_def fixtures Let_def)


text \<open>
  When \<open>res.send\<close> throws, the request has recorded a success and then records a
  failure, and the reply is 500.
\<close>

lemma route_invalid_number_body:
  "routeToService defaults invalid_number_body ''B'' plain_request two_healthy_B
   = Inr \<lparr>response = Reply 500 (Json_detail ''Invalid status code: 5''),
          forwarded = Some \<lparr>out_method = ''GET'', out_url = ''http://10.0.0.1:5000/users'',
                             out_data = [], out_headers = [(''X-Gateway-Token'', ''test123'')]\<rparr>,
          after = two_healthy_B\<lparr>circuitBreakers :=
                    [(''serviceA'', initial_breaker),
                     (''serviceB'', \<lparr>failures = 1, lastFailure = Some 1010, state = CLOSED,
                        reroutes = 0, lastReroute = None, consecutiveReroutes = 0\<rparr>)]\<rparr>\<rparr>"
  by (simp add: routeToService_def checkCircuitBreaker_def getServiceIPs_def
      safeRedisOperation_def selectServiceInstance_no_map isHealthy_def recordSuccess_def
      recordFailure_def toNumber_def errorReply_def fixtures Let_def)


text \<open>
  C5 as claimed fails: the breaker of service B is OPEN and more than \<open>ERROR_TIMEOUT\<close>
  ms have passed since its last failure, but Redis is disconnected. The gate moves the
  breaker to HALF-OPEN, and the request is answered 503 without being forwarded.
\<close>

theorem open_probe_not_forwarded_counterexample:
  "map_of (circuitBreakers (open_B\<lparr>redisConnected := False\<rparr>)) ''serviceB'' = Some open_breaker
   \<and> state open_breaker = OPEN
   \<and> gate_now probe_200 - toNumber (lastFailure open_breaker) > ERROR_TIMEOUT defaults
   \<and> routeToService defaults probe_200 ''B'' plain_request (open_B\<lparr>redisConnected := False\<rparr>)
     = Inr \<lparr>response = Reply 503 (Json_detail
                         ''serviceB is not available or Redis is disconnected''),
            forwarded = None,
            after = open_B\<lparr>redisConnected := False, circuitBreakers :=
                      [(''serviceA'', initial_breaker),
                       (''serviceB'', \<lparr>failures = 3, lastFailure = Some 1000, state = HALF_OPEN,
                          reroutes = 0, lastReroute = None, consecutiveReroutes = 0\<rparr>)]\<rparr>\<rparr>"
  using route_probe_disconnected
  by (simp add: open_B_def open_breaker_def probe_200_def defaults_def toNumber_def)

text \<open>
  C5 as amended. For a request to a service whose breaker is OPEN: if more than
  \<open>ERROR_TIMEOUT\<close> ms have passed since \<open>lastFailure\<close>, the gate moves the breaker to
  HALF-OPEN with \<open>consecutiveReroutes\<close> 0 and lets the request pass; the request is then
  forwarded to an instance of the registry's list when that list is not empty (and holds no
  empty name), and is answered 503 "service<Type> is not available or Redis is disconnected"
  without a forward, the breaker left HALF-OPEN, when the list is empty. Otherwise the
  breaker stays OPEN, nothing changes, and the answer is 503 "service<Type> is currently
  unavailable (Circuit Breaker: OPEN)" without a forward.
\<close>

theorem open_breaker_dispatch:
  assumes breaker: "map_of (circuitBreakers g) (''service'' @ ty) = Some b"
    and opened: "state b = OPEN"
  shows "(gate_now e - toNumber (lastFailure b) > ERROR_TIMEOUT cfg \<longrightarrow>
           checkCircuitBreaker cfg (gate_now e) b
             = (True, b\<lparr>state := HALF_OPEN, consecutiveReroutes := 0\<rparr>)
           \<and> (\<exists>r. routeToService cfg e ty req g = Inr r
                \<and> (getServiceIPs e g ty = [] \<longrightarrow>
                     forwarded r = None
                     \<and> response r = Reply 503 (Json_detail
                          (''service'' @ ty @ '' is not available or Redis is disconnected''))
                     \<and> after r = g\<lparr>circuitBreakers := AList.update (''service'' @ ty)
                          (b\<lparr>state := HALF_OPEN, consecutiveReroutes := 0\<rparr>) (circuitBreakers g)\<rparr>)
                \<and> (getServiceIPs e g ty \<noteq> [] \<and> [] \<notin> set (getServiceIPs e g ty) \<longrightarrow>
                     (\<exists>i \<in> set (getServiceIPs e g ty).
                        forwarded r = Some \<lparr>out_method = http_method req,
                          out_url = ''http://'' @ i @ '':'' @ SERV_REST_PORT cfg @ url req,
                          out_data = body req,
                          out_headers = AList.update ''X-Gateway-Token'' (GATEWAY_SECRET cfg)
                                          (headers req)\<rparr>))))
       \<and> (\<not> gate_now e - toNumber (lastFailure b) > ERROR_TIMEOUT cfg \<longrightarrow>
           routeToService cfg e ty req g
             = Inr \<lparr>response = Reply 503 (Json_detail
                      (''service'' @ ty @ '' is currently unavailable (Circuit Breaker: OPEN)'')),
                    forwarded = None, after = g\<rparr>)"
proof (cases "gate_now e - toNumber (lastFailure b) > ERROR_TIMEOUT cfg")
  case False
  then have "checkCircuitBreaker cfg (gate_now e) b = (False, b)"
    using opened by (simp add: checkCircuitBreaker_def)
  from routeToService_rejected [OF breaker this] False show ?thesis
    by simp
next
  case True
  define b1 where "b1 = b\<lparr>state := HALF_OPEN, consecutiveReroutes := 0\<rparr>"
  define ips where "ips = getServiceIPs e g ty"
  have gate: "checkCircuitBreaker cfg (gate_now e) b = (True, b1)"
    using True opened by (simp add: checkCircuitBreaker_def b1_def)
  obtain sel g2 where sel: "selectServiceInstance ty (getServiceIPs e g ty) (completed_samples e)
      (g\<lparr>circuitBreakers := AList.update (''service'' @ ty) b1 (circuitBreakers g)\<rparr>) = (sel, g2)"
    by fastforce
  note route = routeToService_admitted [OF breaker gate sel, where req = req]
  have member: "getServiceIPs e g ty \<noteq> [] \<Longrightarrow> \<exists>i \<in> set (getServiceIPs e g ty). sel = Some i"
    using selectServiceInstance_result [of ty "getServiceIPs e g ty" "completed_samples e"
        "g\<lparr>circuitBreakers := AList.update (''service'' @ ty) b1 (circuitBreakers g)\<rparr>"] sel
    by (cases sel) auto
  have forwarded: "\<exists>i \<in> set (getServiceIPs e g ty).
      forwarded (projr (routeToService cfg e ty req g)) = Some \<lparr>out_method = http_method req,
          out_url = ''http://'' @ i @ '':'' @ SERV_REST_PORT cfg @ url req,
          out_data = body req,
          out_headers = AList.update ''X-Gateway-Token'' (GATEWAY_SECRET cfg) (headers req)\<rparr>"
    if nonempty: "getServiceIPs e g ty \<noteq> []" and noblank: "[] \<notin> set (getServiceIPs e g ty)"
  proof -
    obtain i where i: "i \<in> set (getServiceIPs e g ty)" "sel = Some i"
      using member nonempty by blast
    then have "i \<noteq> []" using noblank by auto
    with i nonempty show ?thesis
      unfolding route by auto
  qed
  have empty: "routeToService cfg e ty req g =
      Inr \<lparr>response = Reply 503 (Json_detail
               (''service'' @ ty @ '' is not available or Redis is disconnected'')),
             forwarded = None,
             after = g\<lparr>circuitBreakers := AList.update (''service'' @ ty) b1 (circuitBreakers g)\<rparr>\<rparr>"
    if "getServiceIPs e g ty = []"
    unfolding route using that by simp
  have returns: "\<exists>r. routeToService cfg e ty req g = Inr r"
    unfolding route by simp
  then obtain r where r: "routeToService cfg e ty req g = Inr r" ..
  show ?thesis
    using True gate r empty forwarded
    by (auto simp: b1_def)
qed

theorem open_breaker_dispatch_witness:
  "map_of (circuitBreakers open_B) ''serviceB'' = Some open_breaker
   \<and> state open_breaker = OPEN
   \<and> gate_now probe_200 - toNumber (lastFailure open_breaker) > ERROR_TIMEOUT defaults
   \<and> \<not> gate_now answer_404 - toNumber (lastFailure open_breaker) > ERROR_TIMEOUT defaults
   \<and> checkCircuitBreaker defaults (gate_now probe_200) open_breaker
       = (True, open_breaker\<lparr>state := HALF_OPEN, consecutiveReroutes := 0\<rparr>)
   \<and> (\<exists>r. routeToService defaults probe_200 ''B'' plain_request open_B = Inr r
          \<and> forwarded r \<noteq> None)
   \<and> routeToService defaults answer_404 ''B'' plain_request open_B
       = Inr \<lparr>response = Reply 503 (Json_detail
                 ''serviceB is currently unavailable (Circuit Breaker: OPEN)''),
              forwarded = None, after = open_B\<rparr>"
proof -
  have breaker: "map_of (circuitBreakers open_B) (''service'' @ ''B'') = Some open_breaker"
    by (simp add: open_B_def)
  have opened: "state open_breaker = OPEN"
    by (simp add: open_breaker_def)
  have expired: "gate_now probe_200 - toNumber (lastFailure open_breaker) > ERROR_TIMEOUT defaults"
    by (simp add: probe_200_def open_breaker_def defaults_def toNumber_def)
  have early: "\<not> gate_now answer_404 - toNumber (lastFailure open_breaker) > ERROR_TIMEOUT defaults"
    by (simp add: answer_404_def open_breaker_def defaults_def toNumber_def)
  have ips: "getServiceIPs probe_200 open_B ''B'' = [''10.0.0.1'', ''10.0.0.2'']"
    by (simp add: getServiceIPs_def safeRedisOperation_def fixtures)
  from open_breaker_dispatch [OF breaker opened, where e = probe_200 and cfg = defaults
      and req = plain_request]
    expired ips
  have late: "checkCircuitBreaker defaults (gate_now probe_200) open_breaker
       = (True, open_breaker\<lparr>state := HALF_OPEN, consecutiveReroutes := 0\<rparr>)
     \<and> (\<exists>r. routeToService defaults probe_200 ''B'' plain_request open_B = Inr r
          \<and> forwarded r \<noteq> None)"
    by auto
  from open_breaker_dispatch [OF breaker opened, where e = answer_404 and cfg = defaults
      and req = plain_request] early
  have "routeToService defaults answer_404 ''B'' plain_request open_B
       = Inr \<lparr>response = Reply 503 (Json_detail
                 ''serviceB is currently unavailable (Circuit Breaker: OPEN)''),
              forwarded = None, after = open_B\<rparr>"
    by simp
  with breaker opened expired early late show ?thesis
    by simp
qed




lemma reroutes_update:
  "map_of al k = Some b \<Longrightarrow> reroutes v = reroutes b \<Longrightarrow>
   map (\<lambda>p. (fst p, reroutes (snd p))) (AList.update k v al)
     = map (\<lambda>p. (fst p, reroutes (snd p))) al"
  by (induction al) (auto split: if_splits)

lemma breaker_functions_reroutes:
  "reroutes (snd (checkCircuitBreaker cfg now b)) = reroutes b
   \<and> reroutes (recordSuccess b) = reroutes b
   \<and> reroutes (recordFailure cfg now b) = reroutes b
   \<and> reroutes (snd (recordReroute cfg now b)) = reroutes b + 1"
  by (simp add: checkCircuitBreaker_def recordSuccess_def recordFailure_def recordReroute_def
      Let_def)

lemma routeToService_reroutes:
  assumes routed: "routeToService cfg e ty req g = Inr r"
  shows "map (\<lambda>p. (fst p, reroutes (snd p))) (circuitBreakers (after r))
     = map (\<lambda>p. (fst p, reroutes (snd p))) (circuitBreakers g)"
proof -
  obtain b where breaker: "map_of (circuitBreakers g) (''service'' @ ty) = Some b"
    using routed by (auto simp: routeToService_def Let_def split: option.splits)
  obtain admitted b1 where gate: "checkCircuitBreaker cfg (gate_now e) b = (admitted, b1)"
    by fastforce
  have b1: "reroutes b1 = reroutes b"
    using breaker_functions_reroutes [of cfg "gate_now e" b] gate by simp
  show ?thesis
  proof (cases admitted)
    case False
    with gate routeToService_rejected [OF breaker, of cfg e b1 req] routed show ?thesis
      by simp
  next
    case True
    define cb1 where "cb1 = AList.update (''service'' @ ty) b1 (circuitBreakers g)"
    obtain sel g2 where sel: "selectServiceInstance ty (getServiceIPs e g ty) (completed_samples e)
        (g\<lparr>circuitBreakers := cb1\<rparr>) = (sel, g2)"
      by fastforce
    have g2: "circuitBreakers g2 = cb1"
      using selectServiceInstance_frame [of ty "getServiceIPs e g ty" "completed_samples e"
          "g\<lparr>circuitBreakers := cb1\<rparr>"] sel by simp
    have cb1: "map (\<lambda>p. (fst p, reroutes (snd p))) cb1
        = map (\<lambda>p. (fst p, reroutes (snd p))) (circuitBreakers g)"
      unfolding cb1_def using reroutes_update [OF breaker b1] .
    have in_cb1: "map_of cb1 (''service'' @ ty) = Some b1"
      by (simp add: cb1_def map_of_update_same)
    have again: "map (\<lambda>p. (fst p, reroutes (snd p))) (AList.update (''service'' @ ty) b' cb1)
        = map (\<lambda>p. (fst p, reroutes (snd p))) (circuitBreakers g)"
      if "reroutes b' = reroutes b1" for b'
      using reroutes_update [OF in_cb1 that] cb1 by simp
    have outcome: "reroutes (case axios_result e of
                  Resolved st data \<Rightarrow>
                    (case res_send e st data of
                       Written reply \<Rightarrow> recordSuccess b1
                     | Threw code message \<Rightarrow>
                         recordFailure cfg (failure_now e) (recordSuccess b1))
                | Rejected code resp message \<Rightarrow> recordFailure cfg (failure_now e) b1) = reroutes b1"
      using breaker_functions_reroutes [of cfg "failure_now e" b1]
        breaker_functions_reroutes [of cfg "failure_now e" "recordSuccess b1"]
      by (simp split: axios_result.splits send_result.splits)
    have gate': "checkCircuitBreaker cfg (gate_now e) b = (True, b1)"
      using gate True by simp
    have sel': "selectServiceInstance ty (getServiceIPs e g ty) (completed_samples e)
        (g\<lparr>circuitBreakers := AList.update (''service'' @ ty) b1 (circuitBreakers g)\<rparr>)
        = (sel, g2)"
      using sel unfolding cb1_def .
    note route = routeToService_admitted [OF breaker gate' sel', where req = req]
    consider (empty) "getServiceIPs e g ty = []"
      | (none) "getServiceIPs e g ty \<noteq> []" "sel = None \<or> sel = Some []"
      | (sent) "getServiceIPs e g ty \<noteq> []" "\<not> (sel = None \<or> sel = Some [])"
      by blast
    then show ?thesis
    proof cases
      case empty
      then have "circuitBreakers (after r) = cb1"
        using routed unfolding route cb1_def by auto
      then show ?thesis using cb1 by simp
    next
      case none
      then have "circuitBreakers (after r) = cb1"
        using routed g2 unfolding route by auto
      then show ?thesis using cb1 by simp
    next
      case sent
      then have "circuitBreakers (after r) = AList.update (''service'' @ ty)
               (case axios_result e of
                  Resolved st data \<Rightarrow>
                    (case res_send e st data of
                       Written reply \<Rightarrow> recordSuccess b1
                     | Threw code message \<Rightarrow>
                         recordFailure cfg (failure_now e) (recordSuccess b1))
                | Rejected code resp message \<Rightarrow> recordFailure cfg (failure_now e) b1) cb1"
        using routed g2 unfolding route by auto
      then show ?thesis using again [OF outcome] by simp
    qed
  qed
qed


lemma routeToService_returns:
  assumes breaker: "map_of (circuitBreakers g) (''service'' @ ty) = Some b"
  shows "\<exists>r. routeToService cfg e ty req g = Inr r"
proof -
  obtain admitted b1 where gate: "checkCircuitBreaker cfg (gate_now e) b = (admitted, b1)"
    by fastforce
  obtain sel g2 where sel: "selectServiceInstance ty (getServiceIPs e g ty) (completed_samples e)
      (g\<lparr>circuitBreakers := AList.update (''service'' @ ty) b1 (circuitBreakers g)\<rparr>) = (sel, g2)"
    by fastforce
  show ?thesis
  proof (cases admitted)
    case True
    with gate have "checkCircuitBreaker cfg (gate_now e) b = (True, b1)" by simp
    from routeToService_admitted [OF breaker this sel, where req = req] show ?thesis
      by simp
  next
    case False
    with gate have "checkCircuitBreaker cfg (gate_now e) b = (False, b1)" by simp
    from routeToService_rejected [OF breaker this, of req] show ?thesis
      by simp
  qed
qed

lemma step_reroutes:
  "map (\<lambda>p. (fst p, reroutes (snd p))) (circuitBreakers (step cfg ev g))
     = map (\<lambda>p. (fst p, reroutes (snd p))) (circuitBreakers g)"
proof (cases ev)
  case (Arrive res)
  then show ?thesis by (simp add: taskLimiter_def)
next
  case (Route e ty req)
  then show ?thesis
    using routeToService_reroutes [of cfg e ty req g]
    by (simp split: sum.splits)
next
  case (Finish res)
  then show ?thesis by (simp add: finish_def)
qed (simp_all add: updateServiceHealth_def)

lemma run_reroutes:
  "map (\<lambda>p. (fst p, reroutes (snd p))) (circuitBreakers (run cfg events g))
     = map (\<lambda>p. (fst p, reroutes (snd p))) (circuitBreakers g)"
  unfolding run_def
  by (induction events arbitrary: g) (simp_all add: step_reroutes)

lemma run_breaker_names:
  "map fst (circuitBreakers (run cfg events g)) = map fst (circuitBreakers g)"
proof -
  have "map fst (map (\<lambda>p. (fst p, reroutes (snd p))) (circuitBreakers (run cfg events g)))
      = map fst (map (\<lambda>p. (fst p, reroutes (snd p))) (circuitBreakers g))"
    by (simp only: run_reroutes)
  then show ?thesis by (simp add: comp_def)
qed

text \<open>
  C9 as claimed fails: the breaker of service B is OPEN with \<open>reroutes\<close> = 0; a request
  at time 20000 consumes the transition to HALF-OPEN, is forwarded and answered 200. The
  breaker is CLOSED afterwards and \<open>reroutes\<close> is still 0.
\<close>

theorem probe_leaves_reroutes_counterexample:
  "map_of (circuitBreakers open_B) ''serviceB'' = Some open_breaker
   \<and> reroutes open_breaker = 0
   \<and> checkCircuitBreaker defaults (gate_now probe_200) open_breaker
       = (True, \<lparr>failures = 3, lastFailure = Some 1000, state = HALF_OPEN,
                 reroutes = 0, lastReroute = None, consecutiveReroutes = 0\<rparr>)
   \<and> routeToService defaults probe_200 ''B'' plain_request open_B
     = Inr \<lparr>response = Reply 200 (Sent (Payload ''ok'' None)),
            forwarded = Some \<lparr>out_method = ''GET'', out_url = ''http://10.0.0.1:5000/users'',
                               out_data = [], out_headers = [(''X-Gateway-Token'', ''test123'')]\<rparr>,
            after = open_B\<lparr>circuitBreakers :=
                      [(''serviceA'', initial_breaker),
                       (''serviceB'', \<lparr>failures = 0, lastFailure = None, state = CLOSED,
                          reroutes = 0, lastReroute = None, consecutiveReroutes = 0\<rparr>)]\<rparr>\<rparr>"
  using route_probe_200
  by (simp add: open_B_def open_breaker_def probe_200_def defaults_def toNumber_def
      checkCircuitBreaker_def)

text \<open>
  C9 as amended. No request path increments the \<open>reroutes\<close> counter. The only function
  that does is \<open>recordReroute\<close>, which adds one per call and has no caller; the gate,
  \<open>recordSuccess\<close> and \<open>recordFailure\<close> keep the counter. So whatever requests arrive,
  are routed (a probe that consumes the transition from OPEN to HALF-OPEN included) and
  finish, every service's \<open>reroutes\<close> counter keeps its value.
\<close>

theorem reroutes_unchanged_by_requests:
  "map (\<lambda>p. (fst p, reroutes (snd p))) (circuitBreakers (run cfg events g))
     = map (\<lambda>p. (fst p, reroutes (snd p))) (circuitBreakers g)
   \<and> reroutes (snd (checkCircuitBreaker cfg now b)) = reroutes b
   \<and> reroutes (recordSuccess b) = reroutes b
   \<and> reroutes (recordFailure cfg now b) = reroutes b
   \<and> reroutes (snd (recordReroute cfg now b)) = reroutes b + 1"
  using run_reroutes [of cfg events g] breaker_functions_reroutes [of cfg now b]
  by simp

theorem reroutes_unchanged_by_requests_witness:
  "map (\<lambda>p. (fst p, reroutes (snd p)))
     (circuitBreakers (run defaults [Arrive 1, Route probe_200 ''B'' plain_request, Finish 1] open_B))
   = [(''serviceA'', 0), (''serviceB'', 0)]
   \<and> reroutes (snd (recordReroute defaults 1000 initial_breaker)) = 1"
  using reroutes_unchanged_by_requests
    [where cfg = defaults and g = open_B and now = 1000 and b = initial_breaker
       and events = "[Arrive 1, Route probe_200 ''B'' plain_request, Finish 1]"]
  by (simp add: open_B_def open_breaker_def initial_breaker_def)

lemma finish_counts:
  "int (length xs) - int (length (filter (\<lambda>r. r = res) xs))
     = int (length (filter (\<lambda>r. r \<noteq> res) xs))"
  using sum_length_filter_compl [of "\<lambda>r. r = res" xs] by simp

lemma step_invariant:
  assumes "admission_invariant cfg g"
  shows "admission_invariant cfg (step cfg ev g)"
proof (cases ev)
  case (Arrive res)
  with assms show ?thesis
    by (auto simp: admission_invariant_def taskLimiter_def)
next
  case (Route e ty req)
  with assms show ?thesis
    using routeToService_frame [of cfg e ty req g]
    by (auto simp: admission_invariant_def split: sum.splits)
next
  case (Finish res)
  have "length (filter (\<lambda>r. r \<noteq> res) (finishListeners g)) \<le> length (finishListeners g)"
    by simp
  with Finish assms show ?thesis
    using finish_counts [of "finishListeners g" res]
    by (simp add: admission_invariant_def finish_def)
qed (use assms in \<open>simp_all add: admission_invariant_def updateServiceHealth_def\<close>)

lemma run_invariant:
  assumes "admission_invariant cfg g"
  shows "admission_invariant cfg (run cfg events g)"
  using assms unfolding run_def
  by (induction events arbitrary: g) (simp_all add: step_invariant)

lemma filter_absent:
  assumes "res \<notin> set xs"
  shows "filter (\<lambda>r. r = res) xs = [] \<and> filter (\<lambda>r. r \<noteq> res) xs = xs"
  using assms by (induction xs) auto

lemma finish_idem: "finish res (finish res g) = finish res g"
proof -
  have "res \<notin> set (finishListeners (finish res g))"
    by (simp add: finish_def)
  from filter_absent [OF this] show ?thesis
    by (simp add: finish_def)
qed

lemma finish_admitted:
  assumes fresh: "res \<notin> set (finishListeners g)"
    and counter: "concurrentRequests g' = concurrentRequests g + 1"
    and listeners: "finishListeners g' = res # finishListeners g"
  shows "concurrentRequests (finish res g') = concurrentRequests g"
  using filter_absent [OF fresh] counter listeners
  by (simp add: finish_def)

lemma initial_invariant:
  "0 \<le> MAX_CONCURRENT_REQUESTS cfg \<Longrightarrow> admission_invariant cfg initial_gateway"
  by (simp add: admission_invariant_def initial_gateway_def)

text \<open>
  What does hold of the admission counter. Let the cap be non-negative and let \<open>g\<close> be
  any state the gateway reaches from its initial state. Then the counter lies between 0 and
  \<open>MAX_CONCURRENT_REQUESTS\<close>. A request that arrives when the counter is at the cap is
  answered 503 "API Gateway is busy. Please try again later." and the state does not
  change. A request that arrives below the cap is counted once; routing it leaves the
  counter alone and ends in a reply on every path; and if its response emits
  \<open>'finish'\<close> the counter is back at its old value, another \<open>finish\<close> of the same
  response changing nothing.
\<close>

lemma admission_counter_bounded:
  assumes nonneg: "0 \<le> MAX_CONCURRENT_REQUESTS cfg"
    and reachable: "g = run cfg events initial_gateway"
  shows "0 \<le> concurrentRequests g \<and> concurrentRequests g \<le> MAX_CONCURRENT_REQUESTS cfg
       \<and> (concurrentRequests g = MAX_CONCURRENT_REQUESTS cfg \<longrightarrow>
            taskLimiter cfg res g
              = (Some (Reply 503 (Json_detail ''API Gateway is busy. Please try again later.'')), g))
       \<and> (concurrentRequests g < MAX_CONCURRENT_REQUESTS cfg \<and> res \<notin> set (finishListeners g) \<longrightarrow>
            (\<exists>g1. taskLimiter cfg res g = (None, g1)
               \<and> concurrentRequests g1 = concurrentRequests g + 1
               \<and> concurrentRequests (finish res g1) = concurrentRequests g
               \<and> finish res (finish res g1) = finish res g1
               \<and> (\<forall>e ty req. ty = ''A'' \<or> ty = ''B'' \<longrightarrow>
                    (\<exists>r. routeToService cfg e ty req g1 = Inr r
                       \<and> concurrentRequests (after r) = concurrentRequests g + 1
                       \<and> concurrentRequests (finish res (after r)) = concurrentRequests g
                       \<and> finish res (finish res (after r)) = finish res (after r)))))"
proof -
  have inv: "admission_invariant cfg g"
    unfolding reachable using run_invariant [OF initial_invariant [OF nonneg]] .
  then have bounds: "0 \<le> concurrentRequests g \<and> concurrentRequests g \<le> MAX_CONCURRENT_REQUESTS cfg"
    by (simp add: admission_invariant_def)
  have busy: "taskLimiter cfg res g
      = (Some (Reply 503 (Json_detail ''API Gateway is busy. Please try again later.'')), g)"
    if "concurrentRequests g = MAX_CONCURRENT_REQUESTS cfg"
    using that by (simp add: taskLimiter_def)
  have names: "map fst (circuitBreakers g) = [''serviceA'', ''serviceB'']"
    unfolding reachable run_breaker_names by (simp add: initial_gateway_def)
  have admitted: "\<exists>g1. taskLimiter cfg res g = (None, g1)
               \<and> concurrentRequests g1 = concurrentRequests g + 1
               \<and> concurrentRequests (finish res g1) = concurrentRequests g
               \<and> finish res (finish res g1) = finish res g1
               \<and> (\<forall>e ty req. ty = ''A'' \<or> ty = ''B'' \<longrightarrow>
                    (\<exists>r. routeToService cfg e ty req g1 = Inr r
                       \<and> concurrentRequests (after r) = concurrentRequests g + 1
                       \<and> concurrentRequests (finish res (after r)) = concurrentRequests g
                       \<and> finish res (finish res (after r)) = finish res (after r)))"
    if below: "concurrentRequests g < MAX_CONCURRENT_REQUESTS cfg"
      and fresh: "res \<notin> set (finishListeners g)"
  proof -
    define g1 where "g1 = g\<lparr>concurrentRequests := concurrentRequests g + 1,
                     finishListeners := res # finishListeners g\<rparr>"
    have limiter: "taskLimiter cfg res g = (None, g1)"
      using below by (simp add: taskLimiter_def g1_def)
    have counter: "concurrentRequests g1 = concurrentRequests g + 1"
      and listeners: "finishListeners g1 = res # finishListeners g"
      and breakers: "circuitBreakers g1 = circuitBreakers g"
      by (simp_all add: g1_def)
    have routes: "\<exists>r. routeToService cfg e ty req g1 = Inr r
                       \<and> concurrentRequests (after r) = concurrentRequests g + 1
                       \<and> concurrentRequests (finish res (after r)) = concurrentRequests g
                       \<and> finish res (finish res (after r)) = finish res (after r)"
      if ty: "ty = ''A'' \<or> ty = ''B''" for e ty req
    proof -
      have "''service'' @ ty \<in> set (map fst (circuitBreakers g1))"
        using ty names breakers by auto
      then obtain b where "map_of (circuitBreakers g1) (''service'' @ ty) = Some b"
        by (metis map_of_eq_None_iff not_Some_eq set_map)
      from routeToService_returns [OF this] obtain r
        where r: "routeToService cfg e ty req g1 = Inr r" by blast
      from routeToService_frame [OF r]
      have "concurrentRequests (after r) = concurrentRequests g + 1"
        and "finishListeners (after r) = res # finishListeners g"
        using counter listeners by simp_all
      with r finish_admitted [OF fresh, of "after r"] finish_idem [of res "after r"]
      show ?thesis by simp
    qed
    show ?thesis
      using limiter counter finish_admitted [OF fresh counter listeners]
        finish_idem [of res g1] routes
      by blast
  qed
  show ?thesis
    using bounds busy admitted by blast
qed



lemma step_route_counter:
  "concurrentRequests (step cfg (Route e ty req) g) = concurrentRequests g
   \<and> finishListeners (step cfg (Route e ty req) g) = finishListeners g"
  using routeToService_frame [of cfg e ty req g]
  by (simp split: sum.splits)

text \<open>
  C3 (the code departs from the claim). The cap is 1. Redis connects and the health monitor
  finds the two instances of service B healthy. A request for /sB is admitted on response
  1; its client closes the connection before the response is written; the handler then
  completes. The limiter listens for \<open>'finish'\<close> only, which this response never emits:
  the counter stays at 1 with no request in flight, and the next request is answered 503
  "API Gateway is busy". The claim releases the slot of an admitted request on every exit
  path.
\<close>

theorem closed_connection_keeps_slot:
  "concurrentRequests
     (run (defaults\<lparr>MAX_CONCURRENT_REQUESTS := 1\<rparr>)
        [RedisConnect, HealthCheck ''B'' ''10.0.0.1'' True, HealthCheck ''B'' ''10.0.0.2'' True,
         Arrive 1, Close 1, Route answer_404 ''B'' plain_request]
        initial_gateway) = 1
   \<and> finishListeners
     (run (defaults\<lparr>MAX_CONCURRENT_REQUESTS := 1\<rparr>)
        [RedisConnect, HealthCheck ''B'' ''10.0.0.1'' True, HealthCheck ''B'' ''10.0.0.2'' True,
         Arrive 1, Close 1, Route answer_404 ''B'' plain_request]
        initial_gateway) = [1]
   \<and> taskLimiter (defaults\<lparr>MAX_CONCURRENT_REQUESTS := 1\<rparr>) 2
     (run (defaults\<lparr>MAX_CONCURRENT_REQUESTS := 1\<rparr>)
        [RedisConnect, HealthCheck ''B'' ''10.0.0.1'' True, HealthCheck ''B'' ''10.0.0.2'' True,
         Arrive 1, Close 1, Route answer_404 ''B'' plain_request]
        initial_gateway)
     = (Some (Reply 503 (Json_detail ''API Gateway is busy. Please try again later.'')),
        run (defaults\<lparr>MAX_CONCURRENT_REQUESTS := 1\<rparr>)
          [RedisConnect, HealthCheck ''B'' ''10.0.0.1'' True, HealthCheck ''B'' ''10.0.0.2'' True,
           Arrive 1, Close 1, Route answer_404 ''B'' plain_request]
          initial_gateway)"
proof -
  define cfg where "cfg = defaults\<lparr>MAX_CONCURRENT_REQUESTS := 1\<rparr>"
  define g where "g = run cfg
        [RedisConnect, HealthCheck ''B'' ''10.0.0.1'' True, HealthCheck ''B'' ''10.0.0.2'' True,
         Arrive 1, Close 1, Route answer_404 ''B'' plain_request]
        initial_gateway"
  have counter: "concurrentRequests g = 1" and listeners: "finishListeners g = [1]"
    by (simp_all add: g_def cfg_def run_def step_route_counter taskLimiter_def
        updateServiceHealth_def initial_gateway_def defaults_def del: step.simps(2))
  have "taskLimiter cfg 2 g
      = (Some (Reply 503 (Json_detail ''API Gateway is busy. Please try again later.'')), g)"
    using counter by (simp add: taskLimiter_def cfg_def)
  with counter listeners show ?thesis
    unfolding g_def cfg_def by simp
qed

text \<open>
  In that run the request is forwarded and the handler hands its reply to the response.
\<close>

lemma closed_connection_request_is_served:
  "step defaults (Route answer_404 ''B'' plain_request) two_healthy_B
     = two_healthy_B\<lparr>circuitBreakers :=
         [(''serviceA'', initial_breaker),
          (''serviceB'', \<lparr>failures = 1, lastFailure = Some 1010, state = CLOSED,
             reroutes = 0, lastReroute = None, consecutiveReroutes = 0\<rparr>)]\<rparr>
   \<and> run defaults
        [RedisConnect, HealthCheck ''B'' ''10.0.0.1'' True, HealthCheck ''B'' ''10.0.0.2'' True]
        initial_gateway = two_healthy_B"
  using route_answer_404
  by (simp add: run_def two_healthy_B_def updateServiceHealth_def initial_gateway_def)

end
